theory Spec2Isabelle
  imports Main
begin

section \<open>Values shared by the mobile screens and the API service\<close>

text \<open>
  The warehouse mobile application is written in TypeScript. Its numbers that matter here
  (identifiers, indices) are integers, modelled as \<open>int\<close>; an instant is the number of
  milliseconds a JavaScript \<open>Date\<close> holds. A value that reaches the program as a
  \<open>Date\<close> in one place and as the text produced by \<open>toISOString\<close> in another is a
  \<open>js_time\<close>: \<open>JSON.stringify\<close> turns the former into the latter, and
  \<open>JSON.parse\<close> does not turn it back.
\<close>

datatype js_time = DateObj nat | IsoText string

text \<open>
  What a handler can throw. A request fails with \<open>NetworkFailure\<close> when no response
  arrives, and with \<open>HttpError status\<close> when the server answers with a status outside 2xx.
\<close>

datatype js_error = TypeError | StorageError | NetworkFailure | HttpError int

text \<open>
  The environment of one handler run: the clock and the library function
  \<open>Date.prototype.toISOString\<close>. Every \<open>new Date()\<close> and \<open>Date.now()\<close> of the run
  reads the same instant \<open>now\<close>.
\<close>

record js_env =
  now :: nat
  toISOString :: "nat \<Rightarrow> string"

text \<open>Template literals print an integer (below \<open>10^21\<close> in size) in decimal.\<close>

fun show_nat :: "nat \<Rightarrow> string" where
  "show_nat n =
     (if n < 10 then [''0123456789'' ! n]
      else show_nat (n div 10) @ [''0123456789'' ! (n mod 10)])"

declare show_nat.simps [simp del]

definition show_int :: "int \<Rightarrow> string" where
  "show_int i = (if i < 0 then CHR ''-'' # show_nat (nat (- i)) else show_nat (nat i))"

text \<open>\<open>xs[i]\<close> in JavaScript is \<open>undefined\<close> outside the array: \<open>None\<close> here.\<close>

definition at_index :: "'a list \<Rightarrow> int \<Rightarrow> 'a option" where
  "at_index xs i = (if 0 \<le> i \<and> i < int (length xs) then Some (xs ! nat i) else None)"

definition startsWith :: "string \<Rightarrow> string \<Rightarrow> bool" where
  "startsWith s p = (take (length p) s = p)"

section \<open>Packout data model (PackoutInstructionsScreen)\<close>

text \<open>
  The members \<open>id\<close>, \<open>text\<close> and \<open>completed\<close> of a checklist item carry the prefix
  \<open>item_\<close>, and the \<open>id\<close> of a step is \<open>step_id\<close>; the other fields keep the names of
  the interfaces \<open>PackoutStep\<close> and \<open>CompliancePhoto\<close>, but for \<open>type\<close>, which is
  \<open>ptype\<close>, and \<open>notes\<close>, which is \<open>pnotes\<close>. An optional member that is absent is
  \<open>None\<close>.
\<close>

record checklist_item =
  item_id :: int
  item_text :: string
  item_completed :: bool

record packout_step =
  step_id :: int
  title :: string
  description :: string
  required :: bool
  completed :: bool
  photoRequired :: bool
  photoTaken :: bool
  photoUri :: "string option"
  instructions :: "string list"
  checklistItems :: "checklist_item list"

datatype photo_type = Package | Label | Damage | Compliance

record compliance_photo =
  uri :: string
  ptype :: photo_type
  pnotes :: string
  timestamp :: js_time

text \<open>The component state of the screen (its \<open>useState\<close> cells).\<close>

record packout_screen =
  packoutSteps :: "packout_step list"
  compliancePhotos :: "compliance_photo list"
  currentStepIndex :: int
  showCamera :: bool
  cameraType :: photo_type
  photoNotes :: string
  submitting :: bool
  showCompletionModal :: bool

section \<open>Local persistence (AsyncStorage)\<close>

text \<open>
  What \<open>savePackoutProgress\<close> writes: the object \<open>{steps, photos, currentStep, lastUpdated}\<close>
  after \<open>JSON.stringify\<close>. A text written by \<open>JSON.stringify\<close> is represented by the
  value \<open>JSON.parse\<close> reads back from it.
\<close>

record saved_progress =
  p_steps :: "packout_step list"
  p_photos :: "compliance_photo list"
  p_currentStep :: int
  p_lastUpdated :: string

text \<open>The body of \<open>POST /packout-tasks/complete\<close> (interface \<open>PackoutTaskData\<close>).\<close>

record step_completion =
  sc_step_id :: int
  sc_completed :: bool
  sc_checklist_items :: "checklist_item list"
  sc_photo_uri :: "string option"

record photo_record =
  pr_type :: photo_type
  pr_notes :: string
  pr_timestamp :: string

record packout_task_data =
  order_id :: int
  steps_completed :: "step_completion list"
  compliance_photos :: "photo_record list"
  completed_at :: string
  worker_notes :: string

text \<open>
  The \<open>data\<close> member of an offline entry: the completion payload with its
  \<open>offline_timestamp\<close>, or the text of any other buffered operation.
\<close>

datatype payload = CompleteTask packout_task_data string | OtherPayload string

datatype stored =
    Text string
  | Progress saved_progress
  | Offline payload string

text \<open>
  AsyncStorage holds key/value pairs; \<open>getAllKeys\<close> lists the keys in insertion order.
  When \<open>failing\<close> is set, every call rejects.
\<close>

record async_storage =
  entries :: "(string \<times> stored) list"
  failing :: bool

fun put :: "string \<Rightarrow> stored \<Rightarrow> (string \<times> stored) list \<Rightarrow> (string \<times> stored) list" where
  "put k v [] = [(k, v)]"
| "put k v ((k', v') # kvs) = (if k' = k then (k, v) # kvs else (k', v') # put k v kvs)"

definition getItem :: "async_storage \<Rightarrow> string \<Rightarrow> js_error + stored option" where
  "getItem st k = (if failing st then Inl StorageError else Inr (map_of (entries st) k))"

definition setItem :: "async_storage \<Rightarrow> string \<Rightarrow> stored \<Rightarrow> js_error + async_storage" where
  "setItem st k v =
     (if failing st then Inl StorageError else Inr (st\<lparr>entries := put k v (entries st)\<rparr>))"

definition multiRemove :: "async_storage \<Rightarrow> string list \<Rightarrow> js_error + async_storage" where
  "multiRemove st ks =
     (if failing st then Inl StorageError
      else Inr (st\<lparr>entries := filter (\<lambda>(k, v). k \<notin> set ks) (entries st)\<rparr>))"

definition removeItem :: "async_storage \<Rightarrow> string \<Rightarrow> js_error + async_storage" where
  "removeItem st k = multiRemove st [k]"

definition getAllKeys :: "async_storage \<Rightarrow> js_error + string list" where
  "getAllKeys st = (if failing st then Inl StorageError else Inr (map fst (entries st)))"

text \<open>JavaScript truthiness of what \<open>getItem\<close> returns: \<open>null\<close> and the empty text are falsy.\<close>

fun truthy :: "stored option \<Rightarrow> bool" where
  "truthy None = False"
| "truthy (Some (Text s)) = (s \<noteq> [])"
| "truthy (Some _) = True"

section \<open>The packout workflow engine (PackoutInstructionsScreen)\<close>

text \<open>
  A handler runs on the screen state of the render that created it, on the storage, and
  appends what it shows with \<open>Alert.alert\<close> as a pair of title and message.
\<close>

record world =
  screen :: packout_screen
  storage :: async_storage
  alerts :: "(string \<times> string) list"

definition alert :: "string \<Rightarrow> string \<Rightarrow> world \<Rightarrow> world" where
  "alert t m w = w\<lparr>alerts := alerts w @ [(t, m)]\<rparr>"

definition mk_item :: "int \<Rightarrow> string \<Rightarrow> checklist_item" where
  "mk_item i t = \<lparr>item_id = i, item_text = t, item_completed = False\<rparr>"

definition mk_step ::
  "int \<Rightarrow> string \<Rightarrow> string \<Rightarrow> string list \<Rightarrow> checklist_item list \<Rightarrow> packout_step" where
  "mk_step i t d ins items =
     \<lparr>step_id = i, title = t, description = d, required = True, completed = False,
      photoRequired = True, photoTaken = False, photoUri = None, instructions = ins,
      checklistItems = items\<rparr>"

text \<open>The five steps the screen starts with.\<close>

definition initialSteps :: "packout_step list" where
  "initialSteps =
     [mk_step 1 ''Verify Order Items'' ''Check all items against the order list''
        [''Scan or verify each item SKU'', ''Check quantities match order'',
         ''Inspect items for damage'', ''Set aside any damaged items'']
        [mk_item 1 ''All items present'', mk_item 2 ''Quantities correct'',
         mk_item 3 ''No visible damage''],
      mk_step 2 ''Select Packaging'' ''Choose appropriate packaging materials''
        [''Select box size based on items'', ''Use bubble wrap for fragile items'',
         ''Add sufficient padding material'', ''Ensure box can close properly'']
        [mk_item 1 ''Correct box size selected'', mk_item 2 ''Protective materials added'',
         mk_item 3 ''Box closes securely''],
      mk_step 3 ''Pack Items'' ''Carefully pack all items in the container''
        [''Place heavier items at bottom'', ''Wrap fragile items individually'',
         ''Fill empty spaces with padding'', ''Ensure nothing moves when shaken'']
        [mk_item 1 ''Items packed securely'', mk_item 2 ''No movement in package'',
         mk_item 3 ''Fragile items protected''],
      mk_step 4 ''Apply Labels'' ''Attach shipping and handling labels''
        [''Print shipping label'', ''Apply label to largest flat surface'',
         ''Add fragile stickers if needed'', ''Attach return label inside package'']
        [mk_item 1 ''Shipping label applied correctly'', mk_item 2 ''Address clearly visible'',
         mk_item 3 ''Special handling labels added''],
      mk_step 5 ''Final Inspection'' ''Perform final quality check''
        [''Verify all labels are secure'', ''Check package integrity'',
         ''Confirm order details match'', ''Take final compliance photo'']
        [mk_item 1 ''Package sealed properly'', mk_item 2 ''All labels secure'',
         mk_item 3 ''Final inspection passed'']]"

definition initialScreen :: packout_screen where
  "initialScreen =
     \<lparr>packoutSteps = initialSteps, compliancePhotos = [], currentStepIndex = 0,
      showCamera = False, cameraType = Package, photoNotes = [], submitting = False,
      showCompletionModal = False\<rparr>"

definition packout_key :: "int \<Rightarrow> string" where
  "packout_key oid = ''packout_'' @ show_int oid"

text \<open>\<open>JSON.stringify\<close> writes a \<open>Date\<close> as the text \<open>toISOString\<close> gives.\<close>

definition stringify_photo :: "js_env \<Rightarrow> compliance_photo \<Rightarrow> compliance_photo" where
  "stringify_photo env p =
     p\<lparr>timestamp := (case timestamp p of
                        DateObj n \<Rightarrow> IsoText (toISOString env n)
                      | IsoText t \<Rightarrow> IsoText t)\<rparr>"

text \<open>
  \<open>savePackoutProgress\<close> reads \<open>packoutSteps\<close>, \<open>compliancePhotos\<close> and
  \<open>currentStepIndex\<close> of the render it was created in; they are its arguments \<open>steps\<close>,
  \<open>photos\<close> and \<open>idx\<close>. A rejected write is caught and logged.
\<close>

definition savePackoutProgress ::
  "js_env \<Rightarrow> int \<Rightarrow> packout_step list \<Rightarrow> compliance_photo list \<Rightarrow> int \<Rightarrow>
   async_storage \<Rightarrow> async_storage" where
  "savePackoutProgress env oid steps photos idx st =
     (case setItem st (packout_key oid)
             (Progress \<lparr>p_steps = steps, p_photos = map (stringify_photo env) photos,
                        p_currentStep = idx, p_lastUpdated = toISOString env (now env)\<rparr>) of
        Inl e \<Rightarrow> st
      | Inr st' \<Rightarrow> st')"

text \<open>
  \<open>loadPackoutProgress\<close>: a progress object is taken over member by member
  (\<open>progress.steps || packoutSteps\<close>, \<open>progress.photos || []\<close>,
  \<open>progress.currentStep || 0\<close>; an array is truthy even when empty, and \<open>0 || 0\<close> is
  \<open>0\<close>). The key is written by \<open>savePackoutProgress\<close> only, so the other cases do not
  arise in a run: an object without these members leaves the steps and resets the rest,
  and for a raw text the case taken is the one where \<open>JSON.parse\<close> throws into the
  \<open>catch\<close>. A rejected read is caught and logged.
\<close>

definition loadPackoutProgress :: "int \<Rightarrow> world \<Rightarrow> world" where
  "loadPackoutProgress oid w =
     (case getItem (storage w) (packout_key oid) of
        Inl e \<Rightarrow> w
      | Inr savedProgress \<Rightarrow>
          if truthy savedProgress then
            (case savedProgress of
               Some (Progress progress) \<Rightarrow>
                 w\<lparr>screen := (screen w)\<lparr>packoutSteps := p_steps progress,
                                         compliancePhotos := p_photos progress,
                                         currentStepIndex := p_currentStep progress\<rparr>\<rparr>
             | Some (Offline d t) \<Rightarrow>
                 w\<lparr>screen := (screen w)\<lparr>compliancePhotos := [], currentStepIndex := 0\<rparr>\<rparr>
             | _ \<Rightarrow> w)
          else w)"

text \<open>\<open>item.completed = !item.completed\<close> on the item \<open>find\<close> returns: the first with the id.\<close>

fun toggle_first :: "int \<Rightarrow> checklist_item list \<Rightarrow> checklist_item list" where
  "toggle_first i [] = []"
| "toggle_first i (x # xs) =
     (if item_id x = i then x\<lparr>item_completed := \<not> item_completed x\<rparr> # xs
      else x # toggle_first i xs)"

text \<open>
  \<open>[...packoutSteps]\<close> copies the array, not the step objects: the assignments below
  change the objects the render's own \<open>packoutSteps\<close> holds too, so the progress written
  by \<open>savePackoutProgress\<close> has the updated steps, together with the photos and the index
  the render was created with. Reading a member of \<open>undefined\<close> (an index outside the
  array) throws a \<open>TypeError\<close>, which nothing catches here.
\<close>

definition handleChecklistItemToggle ::
  "js_env \<Rightarrow> int \<Rightarrow> int \<Rightarrow> int \<Rightarrow> world \<Rightarrow> js_error + world" where
  "handleChecklistItemToggle env oid stepIndex itemId w =
     (let s = screen w in
      case at_index (packoutSteps s) stepIndex of
        None \<Rightarrow> Inl TypeError
      | Some step \<Rightarrow>
          (case find (\<lambda>item. item_id item = itemId) (checklistItems step) of
             None \<Rightarrow> Inr w
           | Some item \<Rightarrow>
               let items' = toggle_first itemId (checklistItems step);
                   allItemsCompleted = list_all item_completed items';
                   photoCompleted = (\<not> photoRequired step \<or> photoTaken step);
                   step' = step\<lparr>completed := allItemsCompleted \<and> photoCompleted,
                                 checklistItems := items'\<rparr>;
                   updatedSteps = (packoutSteps s)[nat stepIndex := step']
               in Inr (w\<lparr>screen := s\<lparr>packoutSteps := updatedSteps\<rparr>,
                         storage := savePackoutProgress env oid updatedSteps
                                      (compliancePhotos s) (currentStepIndex s) (storage w)\<rparr>)))"

definition handleTakePhoto :: "photo_type \<Rightarrow> world \<Rightarrow> world" where
  "handleTakePhoto photoType w =
     w\<lparr>screen := (screen w)\<lparr>cameraType := photoType, photoNotes := [], showCamera := True\<rparr>\<rparr>"

text \<open>
  \<open>handleCameraCapture\<close> runs in a \<open>try\<close>: the \<open>TypeError\<close> of an index outside the
  array is thrown by the first assignment, before anything has changed, and ends in the
  error alert.
\<close>

definition handleCameraCapture :: "js_env \<Rightarrow> int \<Rightarrow> string \<Rightarrow> world \<Rightarrow> world" where
  "handleCameraCapture env oid u w =
     (let s = screen w in
      case at_index (packoutSteps s) (currentStepIndex s) of
        None \<Rightarrow> alert ''Error'' ''Failed to capture photo. Please try again.'' w
      | Some currentStep \<Rightarrow>
          let allItemsCompleted = list_all item_completed (checklistItems currentStep);
              marked = currentStep\<lparr>photoTaken := True, photoUri := Some u\<rparr>;
              step' = marked\<lparr>completed := allItemsCompleted \<and> photoTaken marked\<rparr>;
              compliancePhoto = \<lparr>uri = u, ptype = cameraType s, pnotes = photoNotes s,
                                 timestamp = DateObj (now env)\<rparr>;
              updatedSteps = (packoutSteps s)[nat (currentStepIndex s) := step']
          in alert ''Success'' ''Photo captured successfully!''
               (w\<lparr>screen := s\<lparr>packoutSteps := updatedSteps,
                               compliancePhotos := compliancePhotos s @ [compliancePhoto],
                               showCamera := False\<rparr>,
                  storage := savePackoutProgress env oid updatedSteps
                               (compliancePhotos s) (currentStepIndex s) (storage w)\<rparr>))"

definition handleNextStep :: "js_env \<Rightarrow> int \<Rightarrow> world \<Rightarrow> js_error + world" where
  "handleNextStep env oid w =
     (let s = screen w in
      case at_index (packoutSteps s) (currentStepIndex s) of
        None \<Rightarrow> Inl TypeError
      | Some currentStep \<Rightarrow>
          if \<not> completed currentStep then
            Inr (alert ''Step Incomplete''
                   ''Please complete all checklist items and take required photos before proceeding.''
                   w)
          else if currentStepIndex s < int (length (packoutSteps s)) - 1 then
            Inr (w\<lparr>screen := s\<lparr>currentStepIndex := currentStepIndex s + 1\<rparr>,
                   storage := savePackoutProgress env oid (packoutSteps s)
                                (compliancePhotos s) (currentStepIndex s) (storage w)\<rparr>)
          else Inr (w\<lparr>screen := s\<lparr>showCompletionModal := True\<rparr>\<rparr>))"

definition handlePreviousStep :: "js_env \<Rightarrow> int \<Rightarrow> world \<Rightarrow> world" where
  "handlePreviousStep env oid w =
     (let s = screen w in
      if currentStepIndex s > 0 then
        w\<lparr>screen := s\<lparr>currentStepIndex := currentStepIndex s - 1\<rparr>,
          storage := savePackoutProgress env oid (packoutSteps s)
                       (compliancePhotos s) (currentStepIndex s) (storage w)\<rparr>
      else w)"

text \<open>
  \<open>handleSubmitPackout\<close>. The server's answer to the POST is the parameter \<open>post\<close>; the
  screen sends the request with \<open>axios\<close> itself, not through the client of the API service.
  Everything between \<open>try\<close> and \<open>catch\<close> that can throw ends in the failure alert:
  reading the token, \<open>photo.timestamp.toISOString()\<close> on a timestamp that is not a
  \<open>Date\<close>, the request, and removing the saved progress.
\<close>

definition photo_record_of :: "js_env \<Rightarrow> compliance_photo \<Rightarrow> js_error + photo_record" where
  "photo_record_of env photo =
     (case timestamp photo of
        DateObj n \<Rightarrow> Inr \<lparr>pr_type = ptype photo, pr_notes = pnotes photo,
                           pr_timestamp = toISOString env n\<rparr>
      | IsoText t \<Rightarrow> Inl TypeError)"

fun photo_records :: "js_env \<Rightarrow> compliance_photo list \<Rightarrow> js_error + photo_record list" where
  "photo_records env [] = Inr []"
| "photo_records env (p # ps) =
     (case photo_record_of env p of
        Inl e \<Rightarrow> Inl e
      | Inr r \<Rightarrow> (case photo_records env ps of Inl e \<Rightarrow> Inl e | Inr rs \<Rightarrow> Inr (r # rs)))"

definition step_completion_of :: "packout_step \<Rightarrow> step_completion" where
  "step_completion_of step =
     \<lparr>sc_step_id = step_id step, sc_completed = completed step,
      sc_checklist_items = checklistItems step, sc_photo_uri = photoUri step\<rparr>"

type_synonym http_post = "packout_task_data \<Rightarrow> js_error + unit"

definition handleSubmitPackout :: "js_env \<Rightarrow> http_post \<Rightarrow> int \<Rightarrow> world \<Rightarrow> world" where
  "handleSubmitPackout env post oid w =
     (let s = screen w;
          failed = alert ''Submission Failed''
                     ''Failed to submit packout. Data has been saved locally.'' w;
          w' = (case getItem (storage w) ''access_token'' of
                  Inl e \<Rightarrow> failed
                | Inr token \<Rightarrow>
                    (case photo_records env (compliancePhotos s) of
                       Inl e \<Rightarrow> failed
                     | Inr photos \<Rightarrow>
                         let submissionData =
                               \<lparr>order_id = oid,
                                steps_completed = map step_completion_of (packoutSteps s),
                                compliance_photos = photos,
                                completed_at = toISOString env (now env),
                                worker_notes = []\<rparr>
                         in (case post submissionData of
                               Inl e \<Rightarrow> failed
                             | Inr r \<Rightarrow>
                                 (case removeItem (storage w) (packout_key oid) of
                                    Inl e \<Rightarrow> failed
                                  | Inr st' \<Rightarrow>
                                      alert ''Success!'' ''Packout completed successfully!''
                                        (w\<lparr>storage := st'\<rparr>)))))
      in w'\<lparr>screen := (screen w')\<lparr>submitting := False, showCompletionModal := False\<rparr>\<rparr>)"

section \<open>The API service (services/api.ts)\<close>

subsection \<open>apiClient\<close>

text \<open>
  Every request of the API service goes through \<open>apiClient\<close>. Its response interceptor
  sees each failed request before the caller does: on the status 401 it removes three of
  the token keys (a rejected removal is caught and logged), and in every case it rejects
  with the error. A request is never sent again, so \<open>_retry\<close> is unset when the
  interceptor reads it. The request interceptor only reads the token.
\<close>

definition responseInterceptor :: "js_error \<Rightarrow> async_storage \<Rightarrow> async_storage" where
  "responseInterceptor err st =
     (if err = HttpError 401 then
        (case multiRemove st [''access_token'', ''token_type'', ''username''] of
           Inl e \<Rightarrow> st
         | Inr st' \<Rightarrow> st')
      else st)"

subsection \<open>tokenManager\<close>

definition getToken :: "async_storage \<Rightarrow> stored option" where
  "getToken st = (case getItem st ''access_token'' of Inl e \<Rightarrow> None | Inr token \<Rightarrow> token)"


definition isAuthenticated :: "async_storage \<Rightarrow> bool" where
  "isAuthenticated st =
     (case getItem st ''access_token'' of Inl e \<Rightarrow> False | Inr token \<Rightarrow> truthy token)"

subsection \<open>offlineStorage\<close>

definition offline_key :: "string \<Rightarrow> string" where
  "offline_key key = ''offline_'' @ key"

definition storeOfflineData :: "js_env \<Rightarrow> string \<Rightarrow> payload \<Rightarrow> async_storage \<Rightarrow> async_storage" where
  "storeOfflineData env key d st =
     (case setItem st (offline_key key) (Offline d (toISOString env (now env))) of
        Inl e \<Rightarrow> st
      | Inr st' \<Rightarrow> st')"


text \<open>
  \<open>syncOfflineData\<close> returns nothing; what it does is the lines it logs, one for each
  offline key whose entry it could read. A rejected read leaves the loop.
\<close>

fun sync_loop :: "async_storage \<Rightarrow> string list \<Rightarrow> string list" where
  "sync_loop st [] = []"
| "sync_loop st (key # keys) =
     (case getItem st key of
        Inl e \<Rightarrow> []
      | Inr d \<Rightarrow>
          (if truthy d then [''Syncing offline data for key: '' @ key] else [])
          @ sync_loop st keys)"

definition syncOfflineData :: "async_storage \<Rightarrow> string list \<times> async_storage" where
  "syncOfflineData st =
     (case getAllKeys st of
        Inl e \<Rightarrow> ([], st)
      | Inr keys \<Rightarrow> (sync_loop st (filter (\<lambda>k. startsWith k ''offline_'') keys), st))"

subsection \<open>authAPI, packoutTasksAPI, networkUtils\<close>


text \<open>
  \<open>completeTask\<close> posts through \<open>apiClient\<close>: a failure passes the response interceptor,
  then the payload is stored for a later replay and the error is thrown again.
\<close>

definition completeTask ::
  "js_env \<Rightarrow> http_post \<Rightarrow> packout_task_data \<Rightarrow> async_storage \<Rightarrow> (js_error + unit) \<times> async_storage" where
  "completeTask env post taskData st =
     (case post taskData of
        Inr r \<Rightarrow> (Inr r, st)
      | Inl e \<Rightarrow>
          (Inl e,
           storeOfflineData env
             (''complete_task_'' @ show_int (order_id taskData) @ ''_'' @ show_nat (now env))
             (CompleteTask taskData (toISOString env (now env)))
             (responseInterceptor e st)))"



section \<open>Order lookup (ScannerScreen)\<close>

record order_item =
  sku :: string
  oi_name :: string
  quantity :: int

record customer =
  c_name :: string
  email :: string

record scanned_order =
  so_id :: int
  order_number :: string
  customer_info :: customer
  items :: "order_item list"
  status :: string
  priority :: string

record scanner_screen =
  scanning :: bool
  scannedData :: "string option"
  loading :: bool
  orderData :: "scanned_order option"
  showOrderModal :: bool

text \<open>\<open>barcode.slice(-6)\<close>: the last six characters, or all of a shorter text.\<close>

definition slice_last :: "nat \<Rightarrow> string \<Rightarrow> string" where
  "slice_last n s = drop (length s - n) s"

definition mockOrder :: "string \<Rightarrow> scanned_order" where
  "mockOrder barcode =
     \<lparr>so_id = 1, order_number = ''ORD-'' @ slice_last 6 barcode,
      customer_info = \<lparr>c_name = ''John Smith'', email = ''john.smith@example.com''\<rparr>,
      items = [\<lparr>sku = ''SKU-001'', oi_name = ''Product A'', quantity = 2\<rparr>,
               \<lparr>sku = ''SKU-002'', oi_name = ''Product B'', quantity = 1\<rparr>],
      status = ''pending'', priority = ''normal''\<rparr>"

type_synonym http_get = "string \<Rightarrow> js_error + scanned_order"

definition fetchOrderData ::
  "http_get \<Rightarrow> async_storage \<Rightarrow> string \<Rightarrow> scanner_screen \<Rightarrow> scanner_screen" where
  "fetchOrderData get st barcode s =
     (let fallback = s\<lparr>orderData := Some (mockOrder barcode), showOrderModal := True\<rparr>;
          s' = (case getItem st ''access_token'' of
                  Inl e \<Rightarrow> fallback
                | Inr token \<Rightarrow>
                    (case get barcode of
                       Inl e \<Rightarrow> fallback
                     | Inr order \<Rightarrow> s\<lparr>orderData := Some order, showOrderModal := True\<rparr>))
      in s'\<lparr>loading := False\<rparr>)"

section \<open>Properties of the specification\<close>

text \<open>The invariant the specification gives for the derived flag \<open>completed\<close> of a step.\<close>

definition step_invariant :: "packout_step \<Rightarrow> bool" where
  "step_invariant st =
     (completed st =
        (list_all item_completed (checklistItems st) \<and> (photoRequired st \<longrightarrow> photoTaken st)))"

text \<open>
  The drain of the specification, written from its words: the envelopes (the entries whose
  key starts with \<open>offline_\<close>) are submitted in the order of the queue, a delivered one is
  removed, the first failure ends the run and leaves the rest, and the result carries the
  numbers of successes and failures.
\<close>

fun drain_spec ::
  "(stored \<Rightarrow> bool) \<Rightarrow> (string \<times> stored) list \<Rightarrow> (string \<times> stored) list \<times> nat \<times> nat" where
  "drain_spec submit [] = ([], 0, 0)"
| "drain_spec submit ((k, v) # kvs) =
     (if startsWith k ''offline_'' then
        (if submit v then
           (case drain_spec submit kvs of (rest, ok, bad) \<Rightarrow> (rest, Suc ok, bad))
         else ((k, v) # kvs, 0, 1))
      else (case drain_spec submit kvs of (rest, ok, bad) \<Rightarrow> ((k, v) # rest, ok, bad)))"



text \<open>The photos of the progress stored under a key.\<close>

definition stored_photos :: "async_storage \<Rightarrow> string \<Rightarrow> compliance_photo list option" where
  "stored_photos st k =
     (case map_of (entries st) k of Some (Progress p) \<Rightarrow> Some (p_photos p) | _ \<Rightarrow> None)"

text \<open>
  The events of the packout screen. The screen handles one event after the other; a run
  applies the handlers in order and ends at the first error that nothing catches.
\<close>

datatype event =
    Load
  | Toggle js_env int int
  | TakePhoto photo_type
  | Capture js_env string
  | Next js_env
  | Previous js_env
  | Submit js_env http_post

fun handle :: "int \<Rightarrow> event \<Rightarrow> world \<Rightarrow> js_error + world" where
  "handle oid Load w = Inr (loadPackoutProgress oid w)"
| "handle oid (Toggle env stepIndex itemId) w = handleChecklistItemToggle env oid stepIndex itemId w"
| "handle oid (TakePhoto photoType) w = Inr (handleTakePhoto photoType w)"
| "handle oid (Capture env u) w = Inr (handleCameraCapture env oid u w)"
| "handle oid (Next env) w = handleNextStep env oid w"
| "handle oid (Previous env) w = Inr (handlePreviousStep env oid w)"
| "handle oid (Submit env post) w = Inr (handleSubmitPackout env post oid w)"

fun run :: "int \<Rightarrow> event list \<Rightarrow> world \<Rightarrow> js_error + world" where
  "run oid [] w = Inr w"
| "run oid (e # es) w = (case handle oid e w of Inl err \<Rightarrow> Inl err | Inr w' \<Rightarrow> run oid es w')"

text \<open>
  The progress objects a storage holds when the screen is mounted were written by earlier
  runs: their steps satisfy the invariant.
\<close>

definition progress_ok :: "stored \<Rightarrow> bool" where
  "progress_ok v = (case v of Progress p \<Rightarrow> list_all step_invariant (p_steps p) | _ \<Rightarrow> True)"

definition storage_ok :: "async_storage \<Rightarrow> bool" where
  "storage_ok st = list_all (\<lambda>(k, v). progress_ok v) (entries st)"

definition world_ok :: "world \<Rightarrow> bool" where
  "world_ok w = (list_all step_invariant (packoutSteps (screen w)) \<and> storage_ok (storage w))"

section \<open>Concrete inputs\<close>

definition env0 :: js_env where
  "env0 = \<lparr>now = 1700000000000, toISOString = (\<lambda>n. ''iso:'' @ show_nat n)\<rparr>"

definition emptyStorage :: async_storage where
  "emptyStorage = \<lparr>entries = [], failing = False\<rparr>"

text \<open>The screen as it is mounted for a new order.\<close>

definition w0 :: world where
  "w0 = \<lparr>screen = initialScreen, storage = emptyStorage, alerts = []\<rparr>"

text \<open>
  A worker opens order 42, ticks the first item, takes the photo of the first step, ticks
  the other two items and goes on to the second step.
\<close>

definition session0 :: "event list" where
  "session0 = [Load, Toggle env0 0 1, TakePhoto Package, Capture env0 ''file:///a.jpg'',
               Toggle env0 0 2, Toggle env0 0 3, Next env0]"

definition finish_step :: "packout_step \<Rightarrow> packout_step" where
  "finish_step st =
     st\<lparr>completed := True, photoTaken := True, photoUri := Some ''file:///photo.jpg'',
        checklistItems := map (\<lambda>i. i\<lparr>item_completed := True\<rparr>) (checklistItems st)\<rparr>"

text \<open>Every step done, the worker standing on step \<open>i\<close>.\<close>

definition w_done :: "int \<Rightarrow> world" where
  "w_done i = w0\<lparr>screen := initialScreen\<lparr>packoutSteps := map finish_step initialSteps,
                                         currentStepIndex := i\<rparr>\<rparr>"

definition post_fails :: http_post where
  "post_fails d = Inl NetworkFailure"

definition post_ok :: http_post where
  "post_ok d = Inr ()"

text \<open>All five steps done, the progress saved, the completion dialog open.\<close>

definition w_submit :: world where
  "w_submit =
     \<lparr>screen = (screen (w_done 4))\<lparr>showCompletionModal := True\<rparr>,
      storage = savePackoutProgress env0 42 (map finish_step initialSteps) [] 4
                  \<lparr>entries = [(''access_token'', Text ''secret'')], failing = False\<rparr>,
      alerts = []\<rparr>"

definition task42 :: packout_task_data where
  "task42 =
     \<lparr>order_id = 42,
      steps_completed = map step_completion_of (map finish_step initialSteps),
      compliance_photos = [], completed_at = ''iso:1700000000000'', worker_notes = []\<rparr>"

text \<open>
  One photo taken on the first step; the progress saved by the next render, which holds
  that photo; the screen mounted again and the progress loaded.
\<close>

definition w_photo :: world where
  "w_photo = handleCameraCapture env0 42 ''file:///a.jpg'' w0"

definition w_saved :: world where
  "w_saved =
     w_photo\<lparr>storage := savePackoutProgress env0 42 (packoutSteps (screen w_photo))
                            (compliancePhotos (screen w_photo))
                            (currentStepIndex (screen w_photo)) (storage w_photo)\<rparr>"

definition w_resumed :: world where
  "w_resumed =
     loadPackoutProgress 42 \<lparr>screen = initialScreen, storage = storage w_saved, alerts = []\<rparr>"

text \<open>An optional damage photo taken on the first step.\<close>

definition w_damage :: world where
  "w_damage = handleCameraCapture env0 42 ''file:///d.jpg'' (handleTakePhoto Damage w0)"

text \<open>
  A worker ticks the three items of the first step and takes the optional damage photo,
  never the required one; then presses Next.
\<close>

definition session_damage :: "event list" where
  "session_damage = [Load, Toggle env0 0 1, Toggle env0 0 2, Toggle env0 0 3,
                     TakePhoto Damage, Capture env0 ''file:///d.jpg'']"

definition w_gate :: world where
  "w_gate = (case run 42 session_damage w0 of Inr w \<Rightarrow> w | Inl e \<Rightarrow> w0)"

definition w_gate_next :: world where
  "w_gate_next = (case run 42 (session_damage @ [Next env0]) w0 of Inr w \<Rightarrow> w | Inl e \<Rightarrow> w0)"

text \<open>The required photo taken, then an optional damage photo on the same step.\<close>

definition w_retake :: world where
  "w_retake = handleCameraCapture env0 42 ''file:///d.jpg'' (handleTakePhoto Damage w_photo)"

definition submit_ok :: "stored \<Rightarrow> bool" where
  "submit_ok v = True"

text \<open>A storage with a token and two buffered operations.\<close>

definition st_queue :: async_storage where
  "st_queue =
     \<lparr>entries =
        [(''access_token'', Text ''secret''),
         (''offline_order_status_update_42'', Offline (OtherPayload ''shipped'') ''iso:1''),
         (''offline_complete_task_42_1700'', Offline (CompleteTask task42 ''iso:2'') ''iso:2'')],
      failing = False\<rparr>"

definition st_token :: async_storage where
  "st_token = \<lparr>entries = [(''access_token'', Text ''secret'')], failing = False\<rparr>"

definition st_empty_token :: async_storage where
  "st_empty_token = \<lparr>entries = [(''access_token'', Text [])], failing = False\<rparr>"

definition st_broken :: async_storage where
  "st_broken = \<lparr>entries = [(''access_token'', Text ''secret'')], failing = True\<rparr>"

definition get_fails :: http_get where
  "get_fails b = Inl NetworkFailure"

definition get_mock :: http_get where
  "get_mock b = Inr (mockOrder b)"

definition scan0 :: scanner_screen where
  "scan0 = \<lparr>scanning = False, scannedData = Some ''PKG-20240042'', loading = True,
            orderData = None, showOrderModal = False\<rparr>"

section \<open>Auxiliary facts\<close>

lemma show_nat_now: "show_nat 1700000000000 = ''1700000000000''"
  by (simp add: show_nat.simps)

lemma show_42: "show_int 42 = ''42''"
  by (simp add: show_int_def show_nat.simps)

lemma packout_key_42: "packout_key 42 = ''packout_42''"
  by (simp add: packout_key_def show_42)

lemma length_initialSteps: "length initialSteps = 5"
  by (simp add: initialSteps_def)

lemma list_all_update: "list_all P xs \<Longrightarrow> P x \<Longrightarrow> list_all P (xs[n := x])"
  by (auto simp: list_all_iff dest: set_update_subset_insert[THEN subsetD])

lemma truthy_iff: "truthy v = (v \<noteq> None \<and> v \<noteq> Some (Text []))"
  by (cases v rule: truthy.cases) auto

subsection \<open>The storage\<close>

lemma map_of_put: "map_of (put k v kvs) k = Some v"
  by (induction kvs) auto

lemma map_of_put_other: "k' \<noteq> k \<Longrightarrow> map_of (put k v kvs) k' = map_of kvs k'"
  by (induction kvs) auto

text \<open>Writing keeps the order of the keys: a new key goes to the end.\<close>

lemma keys_put:
  "map fst (put k v kvs) = (if k \<in> set (map fst kvs) then map fst kvs else map fst kvs @ [k])"
  by (induction kvs) (auto split: if_splits)



















lemma sync_loop_log:
  "\<not> failing st \<Longrightarrow>
   sync_loop st keys = map (\<lambda>k. ''Syncing offline data for key: '' @ k)
                         (filter (\<lambda>k. truthy (map_of (entries st) k)) keys)"
  by (induction keys) (simp_all add: getItem_def)

subsection \<open>Saving and loading the progress\<close>

text \<open>
  What a load after a save gives: the steps and the index as they were saved, and the
  photos as \<open>JSON.stringify\<close> wrote them.
\<close>

lemma save_then_load:
  assumes "\<not> failing st"
  shows "loadPackoutProgress oid
           \<lparr>screen = s0, storage = savePackoutProgress env oid steps photos idx st, alerts = a\<rparr>
         = \<lparr>screen = s0\<lparr>packoutSteps := steps,
                          compliancePhotos := map (stringify_photo env) photos,
                          currentStepIndex := idx\<rparr>,
            storage = savePackoutProgress env oid steps photos idx st, alerts = a\<rparr>"
  using assms
  by (simp add: loadPackoutProgress_def savePackoutProgress_def setItem_def getItem_def
      map_of_put)

lemma w_photo_screen:
  "compliancePhotos (screen w_photo)
     = [\<lparr>uri = ''file:///a.jpg'', ptype = Package, pnotes = [],
         timestamp = DateObj 1700000000000\<rparr>]"
  "currentStepIndex (screen w_photo) = 0"
  "failing (storage w_photo) = False"
  by (simp_all add: w_photo_def handleCameraCapture_def w0_def initialScreen_def at_index_def
      initialSteps_def Let_def alert_def env0_def savePackoutProgress_def setItem_def
      emptyStorage_def)

lemma w_resumed_eq:
  "w_resumed =
     \<lparr>screen = initialScreen\<lparr>packoutSteps := packoutSteps (screen w_photo),
         compliancePhotos := map (stringify_photo env0) (compliancePhotos (screen w_photo)),
         currentStepIndex := currentStepIndex (screen w_photo)\<rparr>,
      storage = storage w_saved, alerts = []\<rparr>"
  unfolding w_resumed_def w_saved_def
  by (simp add: save_then_load w_photo_screen)

subsection \<open>The derived flag\<close>

lemma toggle_keeps_invariant:
  assumes "list_all step_invariant (packoutSteps (screen w))"
      and "handleChecklistItemToggle env oid i itemId w = Inr w'"
  shows "list_all step_invariant (packoutSteps (screen w'))"
  using assms
  by (auto simp: handleChecklistItemToggle_def Let_def step_invariant_def
      split: option.splits intro!: list_all_update)

lemma capture_keeps_invariant:
  assumes "list_all step_invariant (packoutSteps (screen w))"
  shows "list_all step_invariant (packoutSteps (screen (handleCameraCapture env oid u w)))"
  using assms
  by (auto simp: handleCameraCapture_def Let_def step_invariant_def alert_def
      split: option.splits intro!: list_all_update)

lemma initialSteps_invariant: "list_all step_invariant initialSteps"
  by (simp add: initialSteps_def mk_step_def mk_item_def step_invariant_def)

lemma list_all_put: "list_all P kvs \<Longrightarrow> P (k, v) \<Longrightarrow> list_all P (put k v kvs)"
  by (induction kvs) auto

lemma storage_ok_save:
  "storage_ok st \<Longrightarrow> list_all step_invariant steps \<Longrightarrow>
   storage_ok (savePackoutProgress env oid steps photos idx st)"
  by (auto simp: storage_ok_def savePackoutProgress_def setItem_def progress_ok_def
      intro!: list_all_put)

lemma storage_ok_lookup:
  "storage_ok st \<Longrightarrow> map_of (entries st) k = Some (Progress p) \<Longrightarrow>
   list_all step_invariant (p_steps p)"
  by (auto simp: storage_ok_def list_all_iff progress_ok_def dest!: map_of_SomeD)

lemma world_ok_load: "world_ok w \<Longrightarrow> world_ok (loadPackoutProgress oid w)"
  by (auto simp: world_ok_def loadPackoutProgress_def getItem_def
      split: sum.splits option.splits stored.splits if_splits dest: storage_ok_lookup)

lemma world_ok_toggle:
  assumes "world_ok w" "handleChecklistItemToggle env oid i itemId w = Inr w'"
  shows "world_ok w'"
proof -
  from assms have s: "list_all step_invariant (packoutSteps (screen w'))"
    by (auto simp: world_ok_def intro: toggle_keeps_invariant)
  from assms have "storage w' = storage w \<or>
      storage w' = savePackoutProgress env oid (packoutSteps (screen w'))
                     (compliancePhotos (screen w)) (currentStepIndex (screen w)) (storage w)"
    by (auto simp: handleChecklistItemToggle_def Let_def split: option.splits)
  with assms(1) s show ?thesis
    by (auto simp: world_ok_def intro: storage_ok_save)
qed

lemma world_ok_take_photo: "world_ok w \<Longrightarrow> world_ok (handleTakePhoto t w)"
  by (simp add: world_ok_def handleTakePhoto_def)

lemma world_ok_capture:
  assumes "world_ok w"
  shows "world_ok (handleCameraCapture env oid u w)"
proof -
  let ?w' = "handleCameraCapture env oid u w"
  from assms have s: "list_all step_invariant (packoutSteps (screen ?w'))"
    by (auto simp: world_ok_def intro: capture_keeps_invariant)
  have "storage ?w' = storage w \<or>
      storage ?w' = savePackoutProgress env oid (packoutSteps (screen ?w'))
                     (compliancePhotos (screen w)) (currentStepIndex (screen w)) (storage w)"
    by (auto simp: handleCameraCapture_def Let_def alert_def split: option.splits)
  with assms s show ?thesis
    by (auto simp: world_ok_def intro: storage_ok_save)
qed

lemma world_ok_next:
  "world_ok w \<Longrightarrow> handleNextStep env oid w = Inr w' \<Longrightarrow> world_ok w'"
  by (auto simp: world_ok_def handleNextStep_def Let_def alert_def
      split: option.splits if_splits intro: storage_ok_save)

lemma world_ok_previous: "world_ok w \<Longrightarrow> world_ok (handlePreviousStep env oid w)"
  by (auto simp: world_ok_def handlePreviousStep_def Let_def intro: storage_ok_save)

lemma world_ok_submit: "world_ok w \<Longrightarrow> world_ok (handleSubmitPackout env post oid w)"
  by (auto simp: world_ok_def handleSubmitPackout_def Let_def alert_def removeItem_def
      multiRemove_def storage_ok_def list_all_iff split: sum.splits if_splits)

lemma world_ok_handle: "world_ok w \<Longrightarrow> handle oid e w = Inr w' \<Longrightarrow> world_ok w'"
  by (cases e) (auto intro: world_ok_load world_ok_toggle world_ok_take_photo world_ok_capture
      world_ok_next world_ok_previous world_ok_submit)

lemma world_ok_run: "world_ok w \<Longrightarrow> run oid es w = Inr w' \<Longrightarrow> world_ok w'"
proof (induction es arbitrary: w)
  case Nil
  then show ?case by simp
next
  case (Cons e es)
  then show ?case
    by (auto split: sum.splits dest: world_ok_handle)
qed

lemma world_ok_mount:
  "storage_ok st \<Longrightarrow> world_ok \<lparr>screen = initialScreen, storage = st, alerts = []\<rparr>"
  by (simp add: world_ok_def initialScreen_def initialSteps_invariant)

lemma run_session0:
  "\<exists>w. run 42 session0 w0 = Inr w \<and> currentStepIndex (screen w) = 1 \<and>
       completed (packoutSteps (screen w) ! 0)"
  by (simp add: session0_def w0_def emptyStorage_def initialScreen_def initialSteps_def
      mk_step_def mk_item_def loadPackoutProgress_def getItem_def handleChecklistItemToggle_def
      handleTakePhoto_def handleCameraCapture_def handleNextStep_def at_index_def Let_def
      alert_def savePackoutProgress_def setItem_def)

lemma toggle_w0: "\<exists>w'. handleChecklistItemToggle env0 42 0 1 w0 = Inr w'"
  by (simp add: handleChecklistItemToggle_def w0_def initialScreen_def initialSteps_def
      at_index_def mk_step_def mk_item_def Let_def)

lemma at_w0:
  "at_index (packoutSteps (screen w0)) (currentStepIndex (screen w0)) = Some (hd initialSteps)"
  by (simp add: w0_def initialScreen_def initialSteps_def at_index_def)

lemma at_w_done:
  "0 \<le> i \<Longrightarrow> i < 5 \<Longrightarrow>
   at_index (packoutSteps (screen (w_done i))) (currentStepIndex (screen (w_done i)))
     = Some (finish_step (initialSteps ! nat i))"
  by (simp add: w_done_def w0_def initialScreen_def at_index_def length_initialSteps)

lemma find_None_iff_ids:
  "find (\<lambda>item. item_id item = i) xs = None \<longleftrightarrow> i \<notin> item_id ` set xs"
  by (induction xs) auto

section \<open>The claims\<close>

subsection \<open>C1: the derived flag of a step\<close>

text \<open>
  C1. For every step, \<open>completed\<close> equals
  "all checklist items completed, and \<open>photoRequired\<close> implies \<open>photoTaken\<close>", after every
  mutating operation:
  \<^item> when every step satisfies this, every step satisfies it again after a checklist item
    has been toggled and after a photo has been recorded, since both handlers compute
    the flag of the step they change from its checklist and its photo state and leave the
    other steps alone;
  \<^item> hence, from the mounted screen, after any sequence of events that runs without an
    uncaught error (loading, toggling, choosing and taking photos, moving forward and
    back, submitting), every step satisfies it.
\<close>

theorem completed_flag_invariant:
  "(list_all step_invariant (packoutSteps (screen w)) \<longrightarrow>
      (\<forall>w'. handleChecklistItemToggle env oid stepIndex itemId w = Inr w' \<longrightarrow>
             list_all step_invariant (packoutSteps (screen w'))) \<and>
      list_all step_invariant (packoutSteps (screen (handleCameraCapture env oid u w)))) \<and>
   (storage_ok st \<and>
    run oid es \<lparr>screen = initialScreen, storage = st, alerts = []\<rparr> = Inr w1 \<longrightarrow>
      list_all step_invariant (packoutSteps (screen w1)))"
proof -
  have "list_all step_invariant (packoutSteps (screen w1))"
    if "storage_ok st" "run oid es \<lparr>screen = initialScreen, storage = st, alerts = []\<rparr> = Inr w1"
    using world_ok_run [OF world_ok_mount [OF that(1)] that(2)]
    by (simp add: world_ok_def)
  then show ?thesis
    using toggle_keeps_invariant capture_keeps_invariant by blast
qed

theorem completed_flag_invariant_witness:
  "list_all step_invariant (packoutSteps (screen w0)) \<and>
   (\<exists>w'. handleChecklistItemToggle env0 42 0 1 w0 = Inr w' \<and>
          list_all step_invariant (packoutSteps (screen w'))) \<and>
   list_all step_invariant
     (packoutSteps (screen (handleCameraCapture env0 42 ''file:///a.jpg'' w0))) \<and>
   storage_ok emptyStorage \<and>
   (\<exists>w. run 42 session0 w0 = Inr w \<and> currentStepIndex (screen w) = 1 \<and>
        list_all step_invariant (packoutSteps (screen w)))"
proof -
  have h: "list_all step_invariant (packoutSteps (screen w0))"
    by (simp add: w0_def initialScreen_def initialSteps_invariant)
  have o: "storage_ok emptyStorage"
    by (simp add: storage_ok_def emptyStorage_def)
  have m: "w0 = \<lparr>screen = initialScreen, storage = emptyStorage, alerts = []\<rparr>"
    by (simp add: w0_def)
  from completed_flag_invariant [of w0 env0 42 0 1 "''file:///a.jpg''" emptyStorage session0]
       toggle_w0 run_session0 h o
  show ?thesis unfolding m by blast
qed

subsection \<open>C2: moving forward\<close>

text \<open>
  C2. With the current index inside the steps, \<open>handleNextStep\<close> returns normally and
  \<^item> on an incomplete current step shows the alert "Step Incomplete" and changes neither
    the screen state (so not the index) nor the storage;
  \<^item> on a completed step that is not the last one adds exactly one to the index and does
    not open the completion dialog;
  \<^item> on a completed last step keeps the index and opens the completion dialog.
\<close>

theorem handleNextStep_gate:
  assumes "at_index (packoutSteps (screen w)) (currentStepIndex (screen w)) = Some cur"
  shows "\<exists>w'. handleNextStep env oid w = Inr w' \<and>
     (\<not> completed cur \<longrightarrow>
        screen w' = screen w \<and> storage w' = storage w \<and>
        alerts w' = alerts w @ [(''Step Incomplete'',
          ''Please complete all checklist items and take required photos before proceeding.'')]) \<and>
     (completed cur \<and> currentStepIndex (screen w) \<noteq> int (length (packoutSteps (screen w))) - 1 \<longrightarrow>
        currentStepIndex (screen w') = currentStepIndex (screen w) + 1 \<and>
        showCompletionModal (screen w') = showCompletionModal (screen w) \<and>
        alerts w' = alerts w) \<and>
     (completed cur \<and> currentStepIndex (screen w) = int (length (packoutSteps (screen w))) - 1 \<longrightarrow>
        currentStepIndex (screen w') = currentStepIndex (screen w) \<and>
        showCompletionModal (screen w') \<and> alerts w' = alerts w)"
  using assms
  by (auto simp: handleNextStep_def Let_def alert_def at_index_def split: if_splits)

text \<open>
  The three cases on the five steps: the first step untouched; every step done and the
  worker on the fourth; every step done and the worker on the fifth.
\<close>

theorem handleNextStep_gate_witness:
  "(\<exists>w'. handleNextStep env0 42 w0 = Inr w' \<and> currentStepIndex (screen w') = 0 \<and>
         fst (last (alerts w')) = ''Step Incomplete'') \<and>
   (\<exists>w'. handleNextStep env0 42 (w_done 3) = Inr w' \<and> currentStepIndex (screen w') = 4 \<and>
         \<not> showCompletionModal (screen w')) \<and>
   (\<exists>w'. handleNextStep env0 42 (w_done 4) = Inr w' \<and> currentStepIndex (screen w') = 4 \<and>
         showCompletionModal (screen w'))"
proof -
  have a: "\<not> completed (hd initialSteps)"
    by (simp add: initialSteps_def mk_step_def)
  have b: "completed (finish_step st)" for st
    by (simp add: finish_step_def)
  have c: "currentStepIndex (screen (w_done i)) = i"
          "length (packoutSteps (screen (w_done i))) = 5"
          "showCompletionModal (screen (w_done i)) = False" for i
    by (simp_all add: w_done_def w0_def initialScreen_def initialSteps_def)
  have d: "currentStepIndex (screen w0) = 0"
    by (simp add: w0_def initialScreen_def)
  from handleNextStep_gate [OF at_w0, of env0 42] a d
  have 1: "\<exists>w'. handleNextStep env0 42 w0 = Inr w' \<and> currentStepIndex (screen w') = 0 \<and>
         fst (last (alerts w')) = ''Step Incomplete''"
    by auto
  from handleNextStep_gate [OF at_w_done [of 3], of env0 42] b c
  have 2: "\<exists>w'. handleNextStep env0 42 (w_done 3) = Inr w' \<and> currentStepIndex (screen w') = 4 \<and>
         \<not> showCompletionModal (screen w')"
    by auto
  from handleNextStep_gate [OF at_w_done [of 4], of env0 42] b c
  have 3: "\<exists>w'. handleNextStep env0 42 (w_done 4) = Inr w' \<and> currentStepIndex (screen w') = 4 \<and>
         showCompletionModal (screen w')"
    by auto
  from 1 2 3 show ?thesis by blast
qed

subsection \<open>C3: a submission that does not reach the server\<close>

text \<open>
  C3. The claim: a submission that ends in a network failure puts exactly one new envelope
  into the offline queue, leaves the saved progress in place and tells the worker that the
  data was saved locally. On the screen's \<open>handleSubmitPackout\<close>, for order 42 with all
  steps done and a request that fails: the storage is what it was, with the keys
  \<open>access_token\<close> and \<open>packout_42\<close> and no key \<open>offline_...\<close>, while the alert says that the
  data has been saved locally. \<open>completeTask\<close> of the API service, which the screen does not
  call, does add \<open>offline_complete_task_42_1700000000000\<close> on the same failure.
\<close>

theorem submit_failure_enqueues_nothing:
  "storage (handleSubmitPackout env0 post_fails 42 w_submit) = storage w_submit \<and>
   map fst (entries (storage (handleSubmitPackout env0 post_fails 42 w_submit)))
     = [''access_token'', ''packout_42''] \<and>
   alerts (handleSubmitPackout env0 post_fails 42 w_submit)
     = [(''Submission Failed'', ''Failed to submit packout. Data has been saved locally.'')] \<and>
   map fst (entries (snd (completeTask env0 post_fails task42 (storage w_submit))))
     = [''access_token'', ''packout_42'', ''offline_complete_task_42_1700000000000'']"
  by (simp add: handleSubmitPackout_def w_submit_def w_done_def w0_def initialScreen_def
      getItem_def savePackoutProgress_def setItem_def packout_key_42 post_fails_def alert_def
      completeTask_def responseInterceptor_def storeOfflineData_def offline_key_def task42_def
      show_42 show_nat_now env0_def)

subsection \<open>C4: replaying the offline queue\<close>

text \<open>
  C4 as stated fails. On a queue of two envelopes and a submit function that accepts
  everything, the drain of the specification removes both and counts two successes;
  \<open>syncOfflineData\<close> leaves both in the storage.
\<close>

theorem syncOfflineData_keeps_delivered_envelopes:
  "entries (snd (syncOfflineData st_queue)) = entries st_queue \<and>
   drain_spec submit_ok (entries st_queue) = ([(''access_token'', Text ''secret'')], 2, 0) \<and>
   entries (snd (syncOfflineData st_queue)) \<noteq> fst (drain_spec submit_ok (entries st_queue))"
  by (simp add: syncOfflineData_def st_queue_def getAllKeys_def startsWith_def submit_ok_def)

text \<open>
  C4, amended. \<open>syncOfflineData\<close> only reads: it leaves the storage as it is, and on a
  working storage it logs one line for each key that starts with \<open>offline_\<close> and has a
  non-empty entry, in the order in which the storage lists its keys. It takes no submit
  function and returns no counts.
\<close>

theorem syncOfflineData_only_reads:
  "snd (syncOfflineData st) = st \<and>
   (\<not> failing st \<longrightarrow>
      fst (syncOfflineData st)
        = map (\<lambda>k. ''Syncing offline data for key: '' @ k)
            (filter (\<lambda>k. startsWith k ''offline_'' \<and> truthy (map_of (entries st) k))
               (map fst (entries st))))"
  by (auto simp: syncOfflineData_def getAllKeys_def sync_loop_log conj_commute split: sum.splits)

theorem syncOfflineData_only_reads_witness:
  "\<not> failing st_queue \<and> snd (syncOfflineData st_queue) = st_queue \<and>
   fst (syncOfflineData st_queue)
     = [''Syncing offline data for key: offline_order_status_update_42'',
        ''Syncing offline data for key: offline_complete_task_42_1700'']"
proof -
  have h: "\<not> failing st_queue" by (simp add: st_queue_def)
  from syncOfflineData_only_reads [of st_queue] h
  show ?thesis by (simp add: st_queue_def startsWith_def)
qed

subsection \<open>C5: when an envelope leaves the queue\<close>




subsection \<open>C6: saving the progress and loading it again\<close>

text \<open>
  C6. The claim: a progress that is saved and loaded again, with nothing in between, is the
  same progress, photos included. With one photo taken for order 42, then saved and loaded
  into a newly mounted screen: the steps and the index come back as they were, the photo
  comes back with the text of its date where the \<open>Date\<close> was, so the photos differ; and a
  submission that the server accepts, which succeeds before the reload, ends in
  "Submission Failed" after it, because \<open>handleSubmitPackout\<close> calls \<open>toISOString\<close> on the
  timestamp of every photo.
\<close>

theorem resume_turns_photo_dates_into_text:
  "packoutSteps (screen w_resumed) = packoutSteps (screen w_saved) \<and>
   currentStepIndex (screen w_resumed) = currentStepIndex (screen w_saved) \<and>
   map timestamp (compliancePhotos (screen w_saved)) = [DateObj 1700000000000] \<and>
   map timestamp (compliancePhotos (screen w_resumed)) = [IsoText ''iso:1700000000000''] \<and>
   compliancePhotos (screen w_resumed) \<noteq> compliancePhotos (screen w_saved) \<and>
   alerts (handleSubmitPackout env0 post_ok 42 w_saved)
     = alerts w_saved @ [(''Success!'', ''Packout completed successfully!'')] \<and>
   alerts (handleSubmitPackout env0 post_ok 42 w_resumed)
     = [(''Submission Failed'', ''Failed to submit packout. Data has been saved locally.'')]"
proof -
  have s: "screen w_saved = screen w_photo"
    by (simp add: w_saved_def)
  have t: "map timestamp (compliancePhotos (screen w_resumed)) = [IsoText ''iso:1700000000000'']"
    by (simp add: w_resumed_eq w_photo_screen stringify_photo_def env0_def show_nat_now)
  have f: "getItem (storage w_saved) ''access_token'' = Inr None"
    by (simp add: w_saved_def w_photo_def handleCameraCapture_def w0_def initialScreen_def
        at_index_def initialSteps_def Let_def alert_def savePackoutProgress_def setItem_def
        emptyStorage_def getItem_def packout_key_42)
  have r: "\<exists>st'. removeItem (storage w_saved) (packout_key 42) = Inr st'"
    by (simp add: removeItem_def multiRemove_def w_saved_def savePackoutProgress_def
        setItem_def w_photo_screen)
  have a: "alerts (handleSubmitPackout env0 post_ok 42 w_resumed)
     = [(''Submission Failed'', ''Failed to submit packout. Data has been saved locally.'')]"
    by (simp add: handleSubmitPackout_def w_resumed_eq f w_photo_screen stringify_photo_def
        photo_record_of_def alert_def)
  have b: "alerts (handleSubmitPackout env0 post_ok 42 w_saved)
     = alerts w_saved @ [(''Success!'', ''Packout completed successfully!'')]"
    using r by (auto simp add: handleSubmitPackout_def f s w_photo_screen
        photo_record_of_def alert_def post_ok_def Let_def)
  have u: "map timestamp (compliancePhotos (screen w_saved)) = [DateObj 1700000000000]"
    by (simp add: s w_photo_screen)
  have n: "compliancePhotos (screen w_resumed) \<noteq> compliancePhotos (screen w_saved)"
  proof
    assume "compliancePhotos (screen w_resumed) = compliancePhotos (screen w_saved)"
    then have "map timestamp (compliancePhotos (screen w_resumed))
                 = map timestamp (compliancePhotos (screen w_saved))"
      by simp
    with t u show False by simp
  qed
  have p: "packoutSteps (screen w_resumed) = packoutSteps (screen w_saved)"
          "currentStepIndex (screen w_resumed) = currentStepIndex (screen w_saved)"
    by (simp_all add: w_resumed_eq s)
  from p u t n b a show ?thesis by blast
qed

subsection \<open>C7: recording a photo\<close>

text \<open>
  C7. The claim: a capture marks the photo of the current step as taken only when it is
  the required photo of the step, the photo is appended to \<open>compliancePhotos\<close> whatever its
  category, the \<open>completed\<close> flag is recomputed, and the session is persisted. The screen
  offers the required photo and, apart from it, the optional damage and compliance photos;
  \<open>handleCameraCapture\<close> does not tell them apart, and it saves the progress with the
  photos of the render it runs in. On order 42:
  \<^item> an optional damage photo marks the photo of the first step as taken;
  \<^item> with the three items ticked and only a damage photo taken, the first step is
    completed and Next moves on to the second step;
  \<^item> the photo is appended to \<open>compliancePhotos\<close> with its category, but the progress
    the capture writes holds no photo;
  \<^item> a damage photo taken after the required one replaces the \<open>photoUri\<close> of the step.
\<close>

theorem optional_photo_marks_step:
  "cameraType (screen (handleTakePhoto Damage w0)) = Damage \<and>
   \<not> photoTaken (packoutSteps (screen (handleTakePhoto Damage w0)) ! 0) \<and>
   photoTaken (packoutSteps (screen w_damage) ! 0) \<and>
   run 42 session_damage w0 = Inr w_gate \<and>
   map ptype (compliancePhotos (screen w_gate)) = [Damage] \<and>
   photoTaken (packoutSteps (screen w_gate) ! 0) \<and>
   completed (packoutSteps (screen w_gate) ! 0) \<and>
   run 42 (session_damage @ [Next env0]) w0 = Inr w_gate_next \<and>
   currentStepIndex (screen w_gate) = 0 \<and>
   currentStepIndex (screen w_gate_next) = 1 \<and>
   map uri (compliancePhotos (screen w_gate)) = [''file:///d.jpg''] \<and>
   stored_photos (storage w_gate) ''packout_42'' = Some [] \<and>
   photoUri (packoutSteps (screen w_photo) ! 0) = Some ''file:///a.jpg'' \<and>
   cameraType (screen (handleTakePhoto Damage w_photo)) = Damage \<and>
   photoUri (packoutSteps (screen w_retake) ! 0) = Some ''file:///d.jpg''"
proof -
  have a: "cameraType (screen (handleTakePhoto Damage w0)) = Damage \<and>
           \<not> photoTaken (packoutSteps (screen (handleTakePhoto Damage w0)) ! 0) \<and>
           photoTaken (packoutSteps (screen w_damage) ! 0)"
    by (simp add: w_damage_def handleTakePhoto_def handleCameraCapture_def w0_def
        initialScreen_def at_index_def initialSteps_def mk_step_def Let_def alert_def)
  have "\<exists>w. run 42 session_damage w0 = Inr w \<and>
            map ptype (compliancePhotos (screen w)) = [Damage] \<and>
            photoTaken (packoutSteps (screen w) ! 0) \<and>
            completed (packoutSteps (screen w) ! 0) \<and>
            currentStepIndex (screen w) = 0 \<and>
            map uri (compliancePhotos (screen w)) = [''file:///d.jpg''] \<and>
            stored_photos (storage w) ''packout_42'' = Some []"
    by (simp add: session_damage_def w0_def emptyStorage_def initialScreen_def initialSteps_def
        mk_step_def mk_item_def loadPackoutProgress_def getItem_def
        handleChecklistItemToggle_def handleTakePhoto_def handleCameraCapture_def at_index_def
        Let_def alert_def savePackoutProgress_def setItem_def packout_key_42 stored_photos_def)
  then have b: "run 42 session_damage w0 = Inr w_gate \<and>
            map ptype (compliancePhotos (screen w_gate)) = [Damage] \<and>
            photoTaken (packoutSteps (screen w_gate) ! 0) \<and>
            completed (packoutSteps (screen w_gate) ! 0) \<and>
            currentStepIndex (screen w_gate) = 0 \<and>
            map uri (compliancePhotos (screen w_gate)) = [''file:///d.jpg''] \<and>
            stored_photos (storage w_gate) ''packout_42'' = Some []"
    by (auto simp: w_gate_def)
  have "\<exists>w. run 42 (session_damage @ [Next env0]) w0 = Inr w \<and> currentStepIndex (screen w) = 1"
    by (simp add: session_damage_def w0_def emptyStorage_def initialScreen_def initialSteps_def
        mk_step_def mk_item_def loadPackoutProgress_def getItem_def
        handleChecklistItemToggle_def handleTakePhoto_def handleCameraCapture_def
        handleNextStep_def at_index_def Let_def alert_def savePackoutProgress_def setItem_def)
  then have c: "run 42 (session_damage @ [Next env0]) w0 = Inr w_gate_next \<and>
                currentStepIndex (screen w_gate_next) = 1"
    by (auto simp: w_gate_next_def)
  have d: "photoUri (packoutSteps (screen w_photo) ! 0) = Some ''file:///a.jpg'' \<and>
           cameraType (screen (handleTakePhoto Damage w_photo)) = Damage \<and>
           photoUri (packoutSteps (screen w_retake) ! 0) = Some ''file:///d.jpg''"
    by (simp add: w_retake_def w_photo_def handleTakePhoto_def handleCameraCapture_def w0_def
        initialScreen_def at_index_def initialSteps_def mk_step_def Let_def alert_def)
  from a b c d show ?thesis by blast
qed

subsection \<open>C8: the order behind a scanned code\<close>

text \<open>
  C8 as stated fails. For the code \<open>PKG-20240042\<close> the screen after a failed lookup is the
  screen after a lookup that succeeded with the same order: nothing in the result tells the
  caller that the order was made up.
\<close>

theorem fallback_order_not_marked:
  "fetchOrderData get_fails st_token ''PKG-20240042'' scan0
     = fetchOrderData get_mock st_token ''PKG-20240042'' scan0"
  by (simp add: fetchOrderData_def get_fails_def get_mock_def getItem_def st_token_def)

text \<open>
  C8, amended. When reading the token or the request fails, \<open>fetchOrderData\<close> shows the
  placeholder order \<open>mockOrder barcode\<close>, a function of the scanned code alone whose order
  number is \<open>ORD-\<close> followed by the last six characters of the code, and it shows it the
  way it shows an order the server returned: the resulting screen is the one a successful
  lookup of that order gives.
\<close>

theorem fetchOrderData_fallback:
  assumes "isl (getItem st ''access_token'') \<or> isl (get barcode)"
  shows "fetchOrderData get st barcode s
           = s\<lparr>orderData := Some (mockOrder barcode), showOrderModal := True, loading := False\<rparr> \<and>
         order_number (mockOrder barcode) = ''ORD-'' @ drop (length barcode - 6) barcode \<and>
         fetchOrderData get st barcode s = fetchOrderData get_mock st_token barcode s"
  using assms
  by (auto simp: fetchOrderData_def mockOrder_def slice_last_def get_mock_def getItem_def
      st_token_def Let_def isl_def split: sum.splits)

theorem fetchOrderData_fallback_witness:
  "isl (get_fails ''PKG-20240042'') \<and>
   orderData (fetchOrderData get_fails st_token ''PKG-20240042'' scan0)
     = Some (mockOrder ''PKG-20240042'') \<and>
   order_number (mockOrder ''PKG-20240042'') = ''ORD-240042''"
proof -
  have h: "isl (get_fails ''PKG-20240042'')"
    by (simp add: get_fails_def)
  then have d: "isl (getItem st_token ''access_token'') \<or> isl (get_fails ''PKG-20240042'')"
    by simp
  from fetchOrderData_fallback
         [where st = st_token and get = get_fails and barcode = "''PKG-20240042''" and s = scan0]
       d h
  show ?thesis by simp
qed

subsection \<open>C9: is there a session\<close>

text \<open>
  C9 as stated fails. With the empty text stored as the token, \<open>getToken\<close> returns a
  credential and \<open>isAuthenticated\<close> is false.
\<close>

theorem empty_token_not_authenticated:
  "getToken st_empty_token = Some (Text []) \<and> getToken st_empty_token \<noteq> None \<and>
   \<not> isAuthenticated st_empty_token"
  by (simp add: getToken_def isAuthenticated_def getItem_def st_empty_token_def)

text \<open>
  C9, amended. \<open>isAuthenticated\<close> is true exactly when a credential is stored and is not
  the empty text; when reading the credential fails the result is false, and no error
  reaches the caller.
\<close>

theorem isAuthenticated_nonempty_token:
  "isAuthenticated st = (getToken st \<noteq> None \<and> getToken st \<noteq> Some (Text [])) \<and>
   (isl (getItem st ''access_token'') \<longrightarrow> \<not> isAuthenticated st)"
  by (cases "getItem st ''access_token''")
     (simp_all add: isAuthenticated_def getToken_def truthy_iff)

theorem isAuthenticated_nonempty_token_witness:
  "isl (getItem st_broken ''access_token'') \<and> \<not> isAuthenticated st_broken \<and>
   getToken st_token = Some (Text ''secret'') \<and> isAuthenticated st_token"
proof -
  have h: "isl (getItem st_broken ''access_token'')"
    by (simp add: getItem_def st_broken_def)
  have t: "getToken st_token = Some (Text ''secret'')"
    by (simp add: getToken_def getItem_def st_token_def)
  from isAuthenticated_nonempty_token [of st_broken] h
  have b: "\<not> isAuthenticated st_broken" by blast
  from isAuthenticated_nonempty_token [of st_token] t
  have a: "isAuthenticated st_token" by simp
  from h b t a show ?thesis by blast
qed

subsection \<open>C10: toggling an item the step does not have\<close>

text \<open>
  C10. When the step exists and none of its checklist items has the given id,
  \<open>handleChecklistItemToggle\<close> returns the world it was given: the steps, the photos, the
  index, the alerts and the storage are unchanged, so nothing is written.
\<close>

theorem toggle_unknown_item_unchanged:
  assumes "at_index (packoutSteps (screen w)) stepIndex = Some step"
      and "itemId \<notin> item_id ` set (checklistItems step)"
  shows "handleChecklistItemToggle env oid stepIndex itemId w = Inr w"
proof -
  from assms(2) have "find (\<lambda>item. item_id item = itemId) (checklistItems step) = None"
    by (simp add: find_None_iff_ids)
  with assms(1) show ?thesis
    by (simp add: handleChecklistItemToggle_def Let_def)
qed

theorem toggle_unknown_item_unchanged_witness:
  "at_index (packoutSteps (screen w0)) 0 = Some (hd initialSteps) \<and>
   7 \<notin> item_id ` set (checklistItems (hd initialSteps)) \<and>
   handleChecklistItemToggle env0 42 0 7 w0 = Inr w0"
proof -
  have h1: "at_index (packoutSteps (screen w0)) 0 = Some (hd initialSteps)"
    by (simp add: w0_def initialScreen_def initialSteps_def at_index_def)
  have h2: "7 \<notin> item_id ` set (checklistItems (hd initialSteps))"
    by (simp add: initialSteps_def mk_step_def mk_item_def)
  from toggle_unknown_item_unchanged [OF h1 h2] h1 h2 show ?thesis by blast
qed

end
